theory Spec2Isabelle
  imports
    Complex_Main
    "HOL-Library.Multiset"
    "HOL-Library.Sublist"
    "HOL-Library.Char_ord"
    "HOL-Library.List_Lexorder"
begin

section \<open>The safety walks dashboard (app.py)\<close>

text \<open>
  The script loads one sheet of a workbook into a data frame (line 23), cleans it (lines
  26 to 28), stops with a warning when nothing is left (lines 30 to 32), orders the
  districts (lines 35 to 38), renders the overall summary (lines 41 to 66) and then one
  section per district (lines 72 to 108). Everything from line 23 on runs inside one
  \<^verbatim>\<open>try\<close> whose handler (lines 110, 111) shows the exception as an error message.

  The model is a function from the loaded frame and the sidebar value
  \<^verbatim>\<open>current_period\<close> to the list of things the script renders, in order.
  An exception ends that list with an \<open>Error\<close> event: whatever was rendered before
  it stays rendered.

  A cell of the frame is blank (\<open>Null\<close>, the loader's NaN; an empty cell of the sheet is
  loaded as such), a number or a text. A number is a real number, which covers the integers
  and the floating-point values a sheet holds. A text is a list of characters with code
  points below 256, compared by code point as Python compares them. A frame remembers
  which of its columns are stored as columns of objects: the loader stores a column so
  when it holds a text (or the sheet has no row), and as a column of numbers otherwise;
  removing rows does not change that. The values of \<^verbatim>\<open>Walks_YTD\<close> and their sums are
  64-bit integers and wrap around. What the library makes of a text as a number, and how
  it prints a number, are parameters of the model (\<open>parse\<close>), and so is the library's
  default sort of a frame by one column (\<open>sort_values\<close>).
\<close>

subsection \<open>Cells, rows and frames\<close>

datatype cell = Null | Num real | Str string

datatype exn = KeyError string | AttributeError | TypeError | ValueError

type_synonym raw_row = "string \<Rightarrow> cell"

record row =
  cells :: raw_row
  Walks_YTD :: int

record 'r frame =
  columns :: "string list"
  object_columns :: "string list"
  rows :: "'r list"

abbreviation WALKS :: string where "WALKS \<equiv> ''# of Safety Walks Completed YTD''"
abbreviation UNIT :: string where "UNIT \<equiv> ''Unit # - Unit Name''"
abbreviation SECTOR :: string where "SECTOR \<equiv> ''Sector Name''"
abbreviation DISTRICT :: string where "DISTRICT \<equiv> ''District''"
abbreviation UNIT_TYPE :: string where "UNIT_TYPE \<equiv> ''Unit Type''"

text \<open>\<^verbatim>\<open>pd.notna(x)\<close>, and whether a cell holds a text.\<close>

fun notna :: "cell \<Rightarrow> bool" where
  "notna Null = False"
| "notna (Num q) = True"
| "notna (Str s) = True"

fun is_text :: "cell \<Rightarrow> bool" where
  "is_text (Str s) = True"
| "is_text Null = False"
| "is_text (Num q) = False"

text \<open>Line 23, \<^verbatim>\<open>pd.read_excel\<close>, from the header and the rows of the sheet: a column
  is stored as a column of objects when the sheet has no row or the column holds a text.\<close>

definition read_excel :: "string list \<Rightarrow> raw_row list \<Rightarrow> raw_row frame" where
  "read_excel header sheet =
     \<lparr>columns = header,
      object_columns = filter (\<lambda>c. sheet = [] \<or> list_ex (\<lambda>r. is_text (r c)) sheet) header,
      rows = sheet\<rparr>"

subsection \<open>64-bit integers\<close>

text \<open>The value of a 64-bit signed integer after wrap-around, and the conversion of a
  number to an integer by dropping its fraction.\<close>

definition wrap64 :: "int \<Rightarrow> int" where
  "wrap64 x = (x + 2 ^ 63) mod 2 ^ 64 - 2 ^ 63"

definition trunc :: "real \<Rightarrow> int" where
  "trunc q = (if 0 \<le> q then \<lfloor>q\<rfloor> else - \<lfloor>- q\<rfloor>)"

text \<open>\<^verbatim>\<open>Series.sum()\<close> of a column of 64-bit integers.\<close>

definition sum64 :: "int list \<Rightarrow> int" where
  "sum64 xs = wrap64 (sum_list xs)"

subsection \<open>Python's string operations\<close>

text \<open>\<^verbatim>\<open>s.startswith(p)\<close>.\<close>

fun str_startswith :: "string \<Rightarrow> string \<Rightarrow> bool" where
  "str_startswith s [] = True"
| "str_startswith [] (p # ps) = False"
| "str_startswith (c # s) (p # ps) = (c = p \<and> str_startswith s ps)"

text \<open>\<^verbatim>\<open>s.split(sep)\<close> for a separator of one character: the pieces between
  the separators, always at least one piece.\<close>

fun str_split :: "char \<Rightarrow> string \<Rightarrow> string list" where
  "str_split sep [] = [[]]"
| "str_split sep (c # s) =
     (if c = sep then [] # str_split sep s
      else (case str_split sep s of
              [] \<Rightarrow> [[c]]
            | w # ws \<Rightarrow> (c # w) # ws))"

text \<open>The characters below 256 that \<^verbatim>\<open>str.strip()\<close> removes: tab, line feed,
  vertical tab, form feed, carriage return, the four separators 28 to 31, the space, the
  next-line control 133 and the no-break space 160.\<close>

definition is_space :: "char \<Rightarrow> bool" where
  "is_space c \<longleftrightarrow>
     (let n = (of_char c :: nat)
      in (9 \<le> n \<and> n \<le> 13) \<or> (28 \<le> n \<and> n \<le> 32) \<or> n = 133 \<or> n = 160)"

definition str_strip :: "string \<Rightarrow> string" where
  "str_strip s = rev (dropWhile is_space (rev (dropWhile is_space s)))"

subsection \<open>The library's conversions between texts and numbers\<close>

text \<open>\<^verbatim>\<open>pd.to_numeric\<close> reads a text as a finite number, as an infinity, or as no
  number at all (\<open>None\<close>); \<^verbatim>\<open>str\<close> prints a number. Both are taken as given.\<close>

datatype number = Finite real | Infinite

record parse =
  text_to_number :: "string \<Rightarrow> number option"
  number_to_text :: "real \<Rightarrow> string"

text \<open>\<^verbatim>\<open>str(x)\<close> for the value of a cell; a blank prints as \<^verbatim>\<open>nan\<close>.\<close>

fun str :: "parse \<Rightarrow> cell \<Rightarrow> string" where
  "str p Null = ''nan''"
| "str p (Num q) = number_to_text p q"
| "str p (Str s) = s"

subsection \<open>Cleaning: lines 26 to 28\<close>

text \<open>\<^verbatim>\<open>pd.to_numeric(..., errors='coerce')\<close>: a number stays, a blank is NaN
  (\<open>None\<close>), a text is what the library reads it as. \<^verbatim>\<open>.fillna(0)\<close> turns NaN into
  0. \<^verbatim>\<open>.astype(int)\<close> raises on an infinity, drops the fraction of a finite number and
  stores it in 64 bits. A number that does not fit is stored wrapped around here, as 2^63
  is to -2^63; what the processor makes of a number further out is not relied upon: the
  theorems below speak of numbers within the range, and evaluate 2^63 and no other.\<close>

fun to_numeric :: "parse \<Rightarrow> cell \<Rightarrow> number option" where
  "to_numeric p Null = None"
| "to_numeric p (Num q) = Some (Finite q)"
| "to_numeric p (Str s) = text_to_number p s"

fun fillna0 :: "number option \<Rightarrow> number" where
  "fillna0 None = Finite 0"
| "fillna0 (Some n) = n"

fun astype_int :: "number \<Rightarrow> exn + int" where
  "astype_int Infinite = Inl ValueError"
| "astype_int (Finite q) = Inr (wrap64 (trunc q))"

text \<open>An operation on every element of a column that stops at the first exception.\<close>

fun traverse :: "('a \<Rightarrow> exn + 'b) \<Rightarrow> 'a list \<Rightarrow> exn + 'b list" where
  "traverse f [] = Inr []"
| "traverse f (x # xs) =
     (case f x of
        Inl e \<Rightarrow> Inl e
      | Inr y \<Rightarrow> (case traverse f xs of Inl e \<Rightarrow> Inl e | Inr ys \<Rightarrow> Inr (y # ys)))"

text \<open>Line 26: the new column \<^verbatim>\<open>Walks_YTD\<close>, a column of integers; a
  \<^verbatim>\<open>KeyError\<close> when the source column is absent.\<close>

definition with_walks :: "parse \<Rightarrow> raw_row \<Rightarrow> exn + row" where
  "with_walks p r =
     (case astype_int (fillna0 (to_numeric p (r WALKS))) of
        Inl e \<Rightarrow> Inl e
      | Inr w \<Rightarrow> Inr \<lparr>cells = r, Walks_YTD = w\<rparr>)"

definition add_walks :: "parse \<Rightarrow> raw_row frame \<Rightarrow> exn + row frame" where
  "add_walks p df =
     (if WALKS \<in> set (columns df)
      then (case traverse (with_walks p) (rows df) of
              Inl e \<Rightarrow> Inl e
            | Inr rs \<Rightarrow>
                Inr \<lparr>columns = (if ''Walks_YTD'' \<in> set (columns df) then columns df
                                else columns df @ [''Walks_YTD'']),
                     object_columns = removeAll ''Walks_YTD'' (object_columns df),
                     rows = rs\<rparr>)
      else Inl (KeyError WALKS))"

text \<open>Line 27: keep the rows whose unit label is not blank.\<close>

definition drop_unlabelled :: "row frame \<Rightarrow> exn + row frame" where
  "drop_unlabelled df =
     (if UNIT \<in> set (columns df)
      then Inr (df\<lparr>rows := filter (\<lambda>r. notna (cells r UNIT)) (rows df)\<rparr>)
      else Inl (KeyError UNIT))"

text \<open>Line 28. The \<^verbatim>\<open>.str\<close> accessor raises \<^verbatim>\<open>AttributeError\<close> on a column of
  numbers, whatever its length, and on a column of objects whose values that are not blank
  are all numbers. \<^verbatim>\<open>.str.startswith('06-ESS', na=False)\<close> is true on a text with
  that prefix and false on everything else, a blank included; the rows where it is true
  are removed.\<close>

definition str_accessor :: "row frame \<Rightarrow> string \<Rightarrow> bool" where
  "str_accessor df c \<longleftrightarrow>
     c \<in> set (object_columns df) \<and>
     (let values = filter notna (map (\<lambda>r. cells r c) (rows df))
      in values = [] \<or> list_ex is_text values)"

fun starts_06_ESS :: "cell \<Rightarrow> bool" where
  "starts_06_ESS (Str s) = str_startswith s ''06-ESS''"
| "starts_06_ESS Null = False"
| "starts_06_ESS (Num q) = False"

definition drop_excluded :: "row frame \<Rightarrow> exn + row frame" where
  "drop_excluded df =
     (if SECTOR \<in> set (columns df)
      then (if str_accessor df SECTOR
            then Inr (df\<lparr>rows := filter (\<lambda>r. \<not> starts_06_ESS (cells r SECTOR)) (rows df)\<rparr>)
            else Inl AttributeError)
      else Inl (KeyError SECTOR))"

definition normalize :: "parse \<Rightarrow> raw_row frame \<Rightarrow> exn + row frame" where
  "normalize p df =
     (case add_walks p df of
        Inl e \<Rightarrow> Inl e
      | Inr df1 \<Rightarrow>
          (case drop_unlabelled df1 of
             Inl e \<Rightarrow> Inl e
           | Inr df2 \<Rightarrow> drop_excluded df2))"

subsection \<open>Ordering the districts: lines 35 to 38\<close>

text \<open>\<^verbatim>\<open>Series.unique()\<close>: the distinct values in order of first appearance.\<close>

fun unique_from :: "'a list \<Rightarrow> 'a list \<Rightarrow> 'a list" where
  "unique_from seen [] = seen"
| "unique_from seen (x # xs) =
     (if x \<in> set seen then unique_from seen xs else unique_from (seen @ [x]) xs)"

definition unique :: "'a list \<Rightarrow> 'a list" where
  "unique xs = unique_from [] xs"

text \<open>The key function of line 37. \<^verbatim>\<open>x.split\<close> exists on a text only: on a
  number whose printed form holds a minus sign it raises \<^verbatim>\<open>AttributeError\<close>.\<close>

definition district_key :: "parse \<Rightarrow> cell \<Rightarrow> exn + string" where
  "district_key p x =
     (if notna x \<and> CHR ''-'' \<in> set (str p x)
      then (case x of
              Str s \<Rightarrow> Inr (str_strip (last (str_split (CHR ''-'') s)))
            | _ \<Rightarrow> Inl AttributeError)
      else Inr (str p x))"

text \<open>\<^verbatim>\<open>sorted(xs, key=f)\<close>: the keys are computed first, in order, and the first
  exception ends the call; then the values are sorted by key, stably.\<close>

definition sorted_by :: "('a \<Rightarrow> exn + 'k::linorder) \<Rightarrow> 'a list \<Rightarrow> exn + 'a list" where
  "sorted_by f xs =
     (case traverse f xs of
        Inl e \<Rightarrow> Inl e
      | Inr ks \<Rightarrow> Inr (map snd (sort_key fst (zip ks xs))))"

definition districts :: "parse \<Rightarrow> row frame \<Rightarrow> exn + cell list" where
  "districts p df =
     (if DISTRICT \<in> set (columns df)
      then sorted_by (district_key p) (unique (map (\<lambda>r. cells r DISTRICT) (rows df)))
      else Inl (KeyError DISTRICT))"

subsection \<open>Chart segments: lines 53 to 65 and 95 to 107\<close>

text \<open>\<^verbatim>\<open>actual\<close> is a 64-bit sum and \<^verbatim>\<open>target\<close> a Python integer; their
  differences are computed in 64 bits.\<close>

definition chart_segments :: "int \<Rightarrow> int \<Rightarrow> (string \<times> int) list" where
  "chart_segments actual target =
     (let completed = min actual target;
          remaining = max (wrap64 (target - actual)) 0;
          excess = max (wrap64 (actual - target)) 0
      in if excess > 0
         then [(''On Target'', completed), (''Excess'', excess)]
         else [(''Completed'', completed), (''Remaining'', remaining)])"

text \<open>\<^verbatim>\<open>ax.pie(x, ...)\<close> raises \<^verbatim>\<open>ValueError\<close> when a wedge size is
  negative.\<close>

definition pie :: "(string \<times> int) list \<Rightarrow> exn + (string \<times> int) list" where
  "pie x = (if list_ex (\<lambda>wedge. snd wedge < 0) x then Inl ValueError else Inr x)"

subsection \<open>Units behind target: lines 85 and 86\<close>

record behind_row =
  unit_name :: cell
  unit_type :: cell
  walks_ytd :: int

definition project :: "row \<Rightarrow> behind_row" where
  "project r = \<lparr>unit_name = cells r UNIT, unit_type = cells r UNIT_TYPE, walks_ytd = Walks_YTD r\<rparr>"

type_synonym sorter = "behind_row list \<Rightarrow> behind_row list"

text \<open>What the library promises of \<^verbatim>\<open>sort_values('Walks_YTD')\<close> with its default
  algorithm: the same rows, in ascending order of that column.\<close>

definition sort_values_contract :: "sorter \<Rightarrow> bool" where
  "sort_values_contract sv \<longleftrightarrow>
     (\<forall>xs. mset (sv xs) = mset xs \<and> sorted (map walks_ytd (sv xs)))"

definition behind :: "sorter \<Rightarrow> string list \<Rightarrow> row list \<Rightarrow> int \<Rightarrow> exn + behind_row list" where
  "behind sort_values cols grp current_period =
     (if UNIT_TYPE \<in> set cols
      then Inr (sort_values (map project (filter (\<lambda>r. Walks_YTD r < current_period) grp)))
      else Inl (KeyError UNIT_TYPE))"

subsection \<open>The rendered report\<close>

text \<open>What the script renders: the warning of line 31, the error message of line 111,
  the overall metrics (units, target, actual; the fourth metric is the quotient of the
  last two, formatted as a percentage) and the overall chart, and for each district the
  expander with its label and metrics (district, units, target, actual), the table of the
  units behind or the message that there are none, and the chart with the display name in
  its title. The sidebar gives \<^verbatim>\<open>current_period\<close> as an integer from 1 to 12.\<close>

datatype event =
    Warning
  | Error exn
  | OverallMetrics int int int
  | OverallPie "(string \<times> int) list"
  | Expander string int int int
  | BehindTable "behind_row list"
  | AllOnTarget
  | DistrictPie string "(string \<times> int) list"

text \<open>Line 73: the rows of a district. \<^verbatim>\<open>df['District'] == district\<close> is false on
  every row when \<^verbatim>\<open>district\<close> is NaN.\<close>

definition cell_eq :: "cell \<Rightarrow> cell \<Rightarrow> bool" where
  "cell_eq a b \<longleftrightarrow> notna a \<and> notna b \<and> a = b"

definition group_of :: "row frame \<Rightarrow> cell \<Rightarrow> row list" where
  "group_of df district = filter (\<lambda>r. cell_eq (cells r DISTRICT) district) (rows df)"

text \<open>The loop of lines 72 to 108. \<^verbatim>\<open>'-' in district\<close> at line 74 raises
  \<^verbatim>\<open>TypeError\<close> when the district is not a text.\<close>

fun district_sections :: "sorter \<Rightarrow> row frame \<Rightarrow> int \<Rightarrow> cell list \<Rightarrow> event list" where
  "district_sections sort_values df current_period [] = []"
| "district_sections sort_values df current_period (district # rest) =
     (let grp = group_of df district in
      case district of
        Str d \<Rightarrow>
          (let dm_name = (if CHR ''-'' \<in> set d
                          then str_strip (last (str_split (CHR ''-'') d)) else d);
               num_units = int (length grp);
               target = num_units * current_period;
               actual = sum64 (map Walks_YTD grp)
           in Expander d num_units target actual #
              (case behind sort_values (columns df) grp current_period of
                 Inl e \<Rightarrow> [Error e]
               | Inr b \<Rightarrow>
                   (if b \<noteq> [] then BehindTable b else AllOnTarget) #
                   (case pie (chart_segments actual target) of
                      Inl e \<Rightarrow> [Error e]
                    | Inr x \<Rightarrow>
                        DistrictPie dm_name x #
                        district_sections sort_values df current_period rest)))
      | _ \<Rightarrow> [Error TypeError])"

text \<open>The body of the \<^verbatim>\<open>try\<close> from line 26 on, with its handler.\<close>

definition run :: "parse \<Rightarrow> sorter \<Rightarrow> raw_row frame \<Rightarrow> int \<Rightarrow> event list" where
  "run p sort_values df0 current_period =
     (case normalize p df0 of
        Inl e \<Rightarrow> [Error e]
      | Inr df \<Rightarrow>
          if rows df = [] then [Warning]
          else (case districts p df of
                  Inl e \<Rightarrow> [Error e]
                | Inr ds \<Rightarrow>
                    (let total_units = int (length (rows df));
                         total_target = total_units * current_period;
                         total_actual = sum64 (map Walks_YTD (rows df))
                     in OverallMetrics total_units total_target total_actual #
                        (case pie (chart_segments total_actual total_target) of
                           Inl e \<Rightarrow> [Error e]
                         | Inr x \<Rightarrow>
                             OverallPie x #
                             district_sections sort_values df current_period ds))))"

subsection \<open>Reading a rendered report\<close>

text \<open>The unit counts and the actual totals of the district sections of a report, and
  the districts the sections are for, in the order rendered.\<close>

fun unit_counts :: "event list \<Rightarrow> int list" where
  "unit_counts [] = []"
| "unit_counts (Expander d n t a # es) = n # unit_counts es"
| "unit_counts (e # es) = unit_counts es"

fun actual_totals :: "event list \<Rightarrow> int list" where
  "actual_totals [] = []"
| "actual_totals (Expander d n t a # es) = a # actual_totals es"
| "actual_totals (e # es) = actual_totals es"

fun section_districts :: "event list \<Rightarrow> cell list" where
  "section_districts [] = []"
| "section_districts (Expander d n t a # es) = Str d # section_districts es"
| "section_districts (e # es) = section_districts es"

subsection \<open>The vocabulary of the specification\<close>

text \<open>These follow the words of the specification, not the code, and are compared with
  the code below. A sector name is excluded when it is a text that starts with the
  excluded prefix. The retained rows of a sheet are those with a unit label and a sector
  name that is not excluded. A character is white space when its code point is one of
  the twelve listed; to trim a text is to remove the white space at both ends. The display
  name of a district key is the text after its last \<^verbatim>\<open>-\<close>, trimmed, and the whole key
  when it has none; districts are ordered by it, and a value that is not a text by its
  printed form. One value is before another in a column when it occurs before the first
  occurrence of the other. \<open>district_col\<close> is the District column of a frame.\<close>

definition has_excluded_prefix :: "cell \<Rightarrow> bool" where
  "has_excluded_prefix c = (case c of Str s \<Rightarrow> prefix ''06-ESS'' s | _ \<Rightarrow> False)"

definition spec_retained :: "raw_row list \<Rightarrow> raw_row list" where
  "spec_retained sheet =
     filter (\<lambda>r. r UNIT \<noteq> Null \<and> \<not> has_excluded_prefix (r SECTOR)) sheet"

definition whitespace :: "char \<Rightarrow> bool" where
  "whitespace c \<longleftrightarrow>
     (of_char c :: nat) \<in> {9, 10, 11, 12, 13, 28, 29, 30, 31, 32, 133, 160}"

definition trimmed :: "string \<Rightarrow> string \<Rightarrow> bool" where
  "trimmed s t \<longleftrightarrow>
     (\<exists>l r. s = l @ t @ r \<and> (\<forall>c\<in>set l. whitespace c) \<and> (\<forall>c\<in>set r. whitespace c)) \<and>
     (t \<noteq> [] \<longrightarrow> \<not> whitespace (hd t) \<and> \<not> whitespace (last t))"

definition after_last_dash :: "string \<Rightarrow> string" where
  "after_last_dash s = rev (takeWhile (\<lambda>c. c \<noteq> CHR ''-'') (rev s))"

definition is_display_name :: "string \<Rightarrow> string \<Rightarrow> bool" where
  "is_display_name s d \<longleftrightarrow>
     (if CHR ''-'' \<in> set s then trimmed (after_last_dash s) d else d = s)"

definition is_sort_name :: "parse \<Rightarrow> cell \<Rightarrow> string \<Rightarrow> bool" where
  "is_sort_name p x k \<longleftrightarrow>
     (case x of
        Str s \<Rightarrow> is_display_name s k
      | Null \<Rightarrow> k = ''nan''
      | Num q \<Rightarrow> k = number_to_text p q)"

definition before :: "'a list \<Rightarrow> 'a \<Rightarrow> 'a \<Rightarrow> bool" where
  "before xs a b \<longleftrightarrow> a \<in> set (takeWhile (\<lambda>y. y \<noteq> b) xs)"

definition district_col :: "row frame \<Rightarrow> cell list" where
  "district_col df = map (\<lambda>r. cells r DISTRICT) (rows df)"

text \<open>The key of a district for which line 37 raises nothing.\<close>

definition the_key :: "parse \<Rightarrow> cell \<Rightarrow> string" where
  "the_key p x = (case district_key p x of Inr k \<Rightarrow> k | Inl e \<Rightarrow> [])"

text \<open>When the cleaning raises nothing, said of the loaded frame: line 26 raises on an
  infinite walks value, and line 28 unless the sector column is a column of objects in
  which, among the rows that have a unit label, a sector name is a text or all are blank.
  \<open>cleaned\<close> is a row of the sheet with its \<^verbatim>\<open>Walks_YTD\<close>.\<close>

definition walks_finite :: "parse \<Rightarrow> raw_row list \<Rightarrow> bool" where
  "walks_finite p sheet = list_all (\<lambda>r. to_numeric p (r WALKS) \<noteq> Some Infinite) sheet"

definition sector_accessible :: "raw_row frame \<Rightarrow> bool" where
  "sector_accessible df \<longleftrightarrow>
     SECTOR \<in> set (object_columns df) \<and>
     (let values = filter notna (map (\<lambda>r. r SECTOR) (filter (\<lambda>r. notna (r UNIT)) (rows df)))
      in values = [] \<or> list_ex is_text values)"

definition walks_int :: "parse \<Rightarrow> raw_row \<Rightarrow> int" where
  "walks_int p r =
     (case fillna0 (to_numeric p (r WALKS)) of Finite q \<Rightarrow> wrap64 (trunc q) | Infinite \<Rightarrow> 0)"

definition cleaned :: "parse \<Rightarrow> raw_row \<Rightarrow> row" where
  "cleaned p r = \<lparr>cells = r, Walks_YTD = walks_int p r\<rparr>"

subsection \<open>Example sheets\<close>

text \<open>A row of a sheet with the five columns the script reads, a library that reads
  \<^verbatim>\<open>4\<close> as a number and \<^verbatim>\<open>inf\<close> as an infinity (its printing of numbers is
  never consulted: no example has a number for a district), and the sheets on which the
  theorems below are evaluated.\<close>

definition sheet_row :: "cell \<Rightarrow> cell \<Rightarrow> cell \<Rightarrow> cell \<Rightarrow> cell \<Rightarrow> raw_row" where
  "sheet_row label sector district utype walks =
     (\<lambda>c. if c = UNIT then label
          else if c = SECTOR then sector
          else if c = DISTRICT then district
          else if c = UNIT_TYPE then utype
          else if c = WALKS then walks
          else Null)"

definition all_columns :: "string list" where
  "all_columns = [UNIT, SECTOR, DISTRICT, UNIT_TYPE, WALKS]"

definition example_parse :: parse where
  "example_parse =
     \<lparr>text_to_number = (\<lambda>s. if s = ''4'' then Some (Finite 4)
                            else if s = ''inf'' then Some Infinite else None),
      number_to_text = (\<lambda>q. ''0'')\<rparr>"




definition overflow_example :: "raw_row frame" where
  "overflow_example =
     read_excel all_columns
       [sheet_row (Str ''U1'') (Str ''01-Ops'') (Str ''D1-Smith'') (Str ''Retail'')
          (Num (- 4611686018427387904)),
        sheet_row (Str ''U2'') (Str ''01-Ops'') (Str ''D1-Smith'') (Str ''Retail'')
          (Num (- 4611686018427387904))]"






definition ordering_example :: "raw_row frame" where
  "ordering_example =
     read_excel all_columns
       [sheet_row (Str ''U1'') (Str ''01-Ops'') (Str ''D3- Smith'') (Str ''Retail'') (Num 2),
        sheet_row (Str ''U2'') (Str ''01-Ops'') (Str ''D2-Jones'') (Str ''Retail'') (Num 5),
        sheet_row (Str ''U3'') (Str ''01-Ops'') (Str ''D1-Smith'') (Str ''Retail'') (Num 1),
        sheet_row (Str ''U4'') (Str ''01-Ops'') (Str ''Adams'') (Str ''Retail'') (Num 1),
        sheet_row (Str ''U5'') (Str ''01-Ops'') (Str ''D2-Jones'') (Str ''Retail'') (Num 1)]"

definition blank_district_example :: "raw_row frame" where
  "blank_district_example =
     read_excel all_columns
       [sheet_row (Str ''U1'') (Str ''01-Ops'') (Str ''D1-Smith'') (Str ''Retail'') (Num 2),
        sheet_row (Str ''U2'') (Str ''01-Ops'') Null (Str ''Retail'') (Num 1)]"

definition no_district_example :: "raw_row frame" where
  "no_district_example =
     read_excel [UNIT, SECTOR, UNIT_TYPE, WALKS]
       [sheet_row (Str ''U1'') (Str ''06-ESS Support Services'') Null (Str ''Retail'') (Num 2)]"

definition no_unit_type_example :: "raw_row frame" where
  "no_unit_type_example =
     read_excel [UNIT, SECTOR, DISTRICT, WALKS]
       [sheet_row (Str ''U1'') (Str ''01-Ops'') (Str ''D1-Smith'') Null (Num 2),
        sheet_row (Str ''U2'') (Str ''01-Ops'') (Str ''D2-Jones'') Null (Num 4)]"

definition no_sector_example :: "raw_row frame" where
  "no_sector_example =
     read_excel [UNIT, DISTRICT, UNIT_TYPE, WALKS]
       [sheet_row (Str ''U1'') Null (Str ''D1-Smith'') (Str ''Retail'') (Num 2)]"

section \<open>Strings, distinct values and sorting\<close>

text \<open>\<^verbatim>\<open>startswith\<close> is the prefix relation, and the last piece of a split is the
  text after the last separator.\<close>

lemma str_startswith_prefix: "str_startswith s p \<longleftrightarrow> prefix p s"
  by (induction s p rule: str_startswith.induct) auto

lemma str_split_not_Nil: "str_split sep s \<noteq> []"
  by (induction s) (auto split: list.splits)

lemma length_str_split: "length (str_split sep s) = Suc (count_list s sep)"
  by (induction s) (auto split: list.splits)

lemma str_split_no_sep: "sep \<notin> set s \<Longrightarrow> str_split sep s = [s]"
  by (induction s) auto

lemma last_str_split_append:
  "sep \<notin> set b \<Longrightarrow> last (str_split sep (a @ sep # b)) = b"
proof (induction a)
  case Nil
  then show ?case by (simp add: str_split_no_sep)
next
  case (Cons c a)
  have len: "2 \<le> length (str_split sep (a @ sep # b))"
    by (simp add: length_str_split)
  then obtain w v ws where w: "str_split sep (a @ sep # b) = w # v # ws"
    by (cases "str_split sep (a @ sep # b)" rule: list.exhaust; simp; cases "tl (str_split sep (a @ sep # b))"; auto)
  with Cons show ?case by auto
qed

lemma after_last_dash_append:
  "CHR ''-'' \<notin> set b \<Longrightarrow> after_last_dash (a @ CHR ''-'' # b) = b"
  by (simp add: after_last_dash_def takeWhile_append)

lemma last_str_split_dash:
  "CHR ''-'' \<in> set s \<Longrightarrow> last (str_split (CHR ''-'') s) = after_last_dash s"
proof -
  assume "CHR ''-'' \<in> set s"
  then obtain a b where s: "s = a @ CHR ''-'' # b" and b: "CHR ''-'' \<notin> set b"
    by (auto dest: split_list_last)
  then show ?thesis
    by (simp add: last_str_split_append after_last_dash_append del: append.simps)
qed

text \<open>\<^verbatim>\<open>strip\<close> trims.\<close>

lemma is_space_whitespace: "is_space c \<longleftrightarrow> whitespace c"
  by (auto simp: is_space_def whitespace_def Let_def)

lemma str_strip_trimmed: "trimmed s (str_strip s)"
proof -
  let ?l = "takeWhile is_space s"
  let ?m = "dropWhile is_space s"
  let ?t = "str_strip s"
  let ?r = "rev (takeWhile is_space (rev ?m))"
  have m: "?m = ?t @ ?r"
    unfolding str_strip_def
    by (metis rev_append rev_rev_ident takeWhile_dropWhile_id)
  have s: "s = ?l @ ?t @ ?r"
    using m by (metis takeWhile_dropWhile_id)
  have l: "\<forall>c\<in>set ?l. whitespace c"
    by (auto dest: set_takeWhileD simp: is_space_whitespace)
  have r: "\<forall>c\<in>set ?r. whitespace c"
    by (auto dest: set_takeWhileD simp: is_space_whitespace)
  have ends: "\<not> whitespace (hd ?t) \<and> \<not> whitespace (last ?t)" if ne: "?t \<noteq> []"
  proof
    from ne have d: "dropWhile is_space (rev ?m) \<noteq> []"
      by (simp add: str_strip_def)
    then have "\<not> is_space (hd (dropWhile is_space (rev ?m)))"
      by (rule hd_dropWhile)
    with d show "\<not> whitespace (last ?t)"
      by (simp add: str_strip_def last_rev is_space_whitespace)
    from ne m have mne: "?m \<noteq> []"
      by (metis append_is_Nil_conv)
    then have "\<not> is_space (hd ?m)" by (rule hd_dropWhile)
    moreover from ne m have "hd ?m = hd ?t"
      by (metis hd_append2)
    ultimately show "\<not> whitespace (hd ?t)"
      by (simp add: is_space_whitespace)
  qed
  from s l r ends show ?thesis
    unfolding trimmed_def by blast
qed

text \<open>\<open>unique\<close> keeps every value once, at the place of its first appearance.\<close>

lemma set_unique_from: "set (unique_from seen xs) = set seen \<union> set xs"
  by (induction xs arbitrary: seen) auto

lemma distinct_unique_from: "distinct seen \<Longrightarrow> distinct (unique_from seen xs)"
  by (induction xs arbitrary: seen) auto

lemma set_unique: "set (unique xs) = set xs"
  by (simp add: unique_def set_unique_from)

lemma distinct_unique: "distinct (unique xs)"
  by (simp add: unique_def distinct_unique_from)

lemma unique_from_append:
  "unique_from seen xs = seen @ unique_from [] (filter (\<lambda>x. x \<notin> set seen) xs)"
proof (induction "length xs" arbitrary: xs seen rule: less_induct)
  case less
  show ?case
  proof (cases xs)
    case Nil
    then show ?thesis by simp
  next
    case (Cons x ys)
    show ?thesis
    proof (cases "x \<in> set seen")
      case True
      then show ?thesis using less [of ys seen] Cons by simp
    next
      case False
      let ?zs = "filter (\<lambda>y. y \<notin> set seen) ys"
      have "unique_from seen xs = unique_from (seen @ [x]) ys"
        using False Cons by simp
      also have "\<dots> = (seen @ [x]) @ unique_from [] (filter (\<lambda>y. y \<notin> set (seen @ [x])) ys)"
        using less [of ys "seen @ [x]"] Cons by simp
      also have "filter (\<lambda>y. y \<notin> set (seen @ [x])) ys = filter (\<lambda>y. y \<notin> set [x]) ?zs"
        by (simp add: conj_commute)
      finally have lhs: "unique_from seen xs
          = seen @ [x] @ unique_from [] (filter (\<lambda>y. y \<notin> set [x]) ?zs)"
        by simp
      have "length ?zs < length xs"
        using Cons by (simp add: less_Suc_eq_le)
      then have "unique_from [x] ?zs = [x] @ unique_from [] (filter (\<lambda>y. y \<notin> set [x]) ?zs)"
        by (rule less)
      then have "seen @ unique_from [] (filter (\<lambda>y. y \<notin> set seen) xs)
          = seen @ [x] @ unique_from [] (filter (\<lambda>y. y \<notin> set [x]) ?zs)"
        using False Cons by simp
      with lhs show ?thesis by simp
    qed
  qed
qed

lemma unique_Cons: "unique (x # xs) = x # unique (removeAll x xs)"
proof -
  have "unique (x # xs) = unique_from [x] xs"
    by (simp add: unique_def)
  also have "\<dots> = [x] @ unique_from [] (filter (\<lambda>y. y \<notin> set [x]) xs)"
    by (rule unique_from_append)
  also have "filter (\<lambda>y. y \<notin> set [x]) xs = removeAll x xs"
    by (induction xs) auto
  finally show ?thesis by (simp add: unique_def)
qed

lemma takeWhile_removeAll:
  "b \<noteq> x \<Longrightarrow> takeWhile (\<lambda>y. y \<noteq> b) (removeAll x xs) = removeAll x (takeWhile (\<lambda>y. y \<noteq> b) xs)"
  by (induction xs) auto

lemma before_removeAll:
  "before (removeAll x xs) a b \<Longrightarrow> b \<noteq> x \<Longrightarrow> before (x # xs) a b"
  by (simp add: before_def takeWhile_removeAll)

lemma unique_before: "sorted_wrt (before xs) (unique xs)"
proof (induction "length xs" arbitrary: xs rule: less_induct)
  case less
  show ?case
  proof (cases xs)
    case Nil
    then show ?thesis by (simp add: unique_def)
  next
    case (Cons x ys)
    have "length (removeAll x ys) < length xs"
      using Cons by (simp add: less_Suc_eq_le)
    then have ih: "sorted_wrt (before (removeAll x ys)) (unique (removeAll x ys))"
      by (rule less)
    have "sorted_wrt (before (x # ys)) (unique (removeAll x ys))"
      using ih
      by (rule sorted_wrt_mono_rel [rotated]) (auto simp: set_unique intro: before_removeAll)
    moreover have "\<forall>y\<in>set (unique (removeAll x ys)). before (x # ys) x y"
      by (auto simp: set_unique before_def)
    ultimately show ?thesis
      using Cons by (simp add: unique_Cons)
  qed
qed

text \<open>Sorting by computed keys is the stable sort by the key function: the result is in
  the order of the keys and, among equal keys, in the order of the input.\<close>

lemma traverse_total:
  "traverse f xs = Inr ks \<Longrightarrow> \<forall>x\<in>set xs. f x = Inr (g x) \<Longrightarrow> ks = map g xs"
  by (induction xs arbitrary: ks) (auto split: sum.splits)

lemma traverse_Inr_iff:
  "(\<exists>ks. traverse f xs = Inr ks) \<longleftrightarrow> (\<forall>x\<in>set xs. \<exists>k. f x = Inr k)"
  by (induction xs) (auto split: sum.splits)

lemma traverse_Inl: "traverse f xs = Inl e \<Longrightarrow> \<exists>x\<in>set xs. f x = Inl e"
  by (induction xs) (auto split: sum.splits)

lemma insort_key_decorated:
  "insort_key fst (g x, x) (map (\<lambda>y. (g y, y)) ys) = map (\<lambda>y. (g y, y)) (insort_key g x ys)"
  by (induction ys) auto

lemma sort_key_decorated:
  "sort_key fst (map (\<lambda>y. (g y, y)) xs) = map (\<lambda>y. (g y, y)) (sort_key g xs)"
  by (induction xs) (auto simp: insort_key_decorated)

lemma sort_key_zip:
  "map snd (sort_key fst (zip (map g xs) xs)) = sort_key g xs"
proof -
  have "zip (map g xs) xs = map (\<lambda>y. (g y, y)) xs"
    by (induction xs) auto
  then show ?thesis by (simp add: sort_key_decorated comp_def)
qed

lemma sorted_by_Inr:
  assumes "sorted_by f xs = Inr ys" and "\<And>x k. f x = Inr k \<Longrightarrow> k = g x"
  shows "ys = sort_key g xs"
proof -
  from assms(1) obtain ks where ks: "traverse f xs = Inr ks"
    and ys: "ys = map snd (sort_key fst (zip ks xs))"
    by (auto simp: sorted_by_def split: sum.splits)
  from ks have "\<forall>x\<in>set xs. \<exists>k. f x = Inr k"
    using traverse_Inr_iff [of f xs] by blast
  with assms(2) have "\<forall>x\<in>set xs. f x = Inr (g x)"
    by metis
  with ks have "ks = map g xs"
    by (rule traverse_total)
  with ys show ?thesis by (simp add: sort_key_zip)
qed

lemma sorted_by_total:
  "(\<exists>ys. sorted_by f xs = Inr ys) \<longleftrightarrow> (\<forall>x\<in>set xs. \<exists>k. f x = Inr k)"
  using traverse_Inr_iff [of f xs] by (auto simp: sorted_by_def split: sum.splits)

lemma insort_key_lex:
  fixes f :: "'a \<Rightarrow> 'k::linorder"
  assumes "sorted_wrt (\<lambda>a b. f a < f b \<or> (f a = f b \<and> R a b)) ys" and "\<forall>y\<in>set ys. R x y"
  shows "sorted_wrt (\<lambda>a b. f a < f b \<or> (f a = f b \<and> R a b)) (insort_key f x ys)"
  using assms
proof (induction ys)
  case Nil
  then show ?case by simp
next
  case (Cons y ys)
  show ?case
  proof (cases "f x \<le> f y")
    case True
    have "f x < f z \<or> (f x = f z \<and> R x z)" if "z \<in> set (y # ys)" for z
    proof -
      from that Cons.prems(1) have "f y \<le> f z" by auto
      with True have "f x \<le> f z" by simp
      moreover from that Cons.prems(2) have "R x z" by auto
      ultimately show ?thesis by auto
    qed
    with True Cons.prems(1) show ?thesis by simp
  next
    case False
    with Cons show ?thesis by (auto simp: set_insort_key)
  qed
qed

lemma sort_key_lex:
  fixes f :: "'a \<Rightarrow> 'k::linorder"
  shows "sorted_wrt R xs \<Longrightarrow>
     sorted_wrt (\<lambda>a b. f a < f b \<or> (f a = f b \<and> R a b)) (sort_key f xs)"
  by (induction xs) (auto intro: insort_key_lex)

text \<open>64-bit wrap-around does not change a value within the range, and sums of values
  that are not negative.\<close>

lemma wrap64_id: "- (2 ^ 63) \<le> x \<Longrightarrow> x < 2 ^ 63 \<Longrightarrow> wrap64 x = x"
  by (simp add: wrap64_def)

lemma wrap64_range: "- (2 ^ 63) \<le> wrap64 x \<and> wrap64 x < 2 ^ 63"
  by (simp add: wrap64_def) 



lemma sum_list_absent_key:
  "k \<notin> set ds \<Longrightarrow> (\<Sum>d\<leftarrow>ds. if k = d then c else 0) = (0::int)"
  by (induction ds) auto

lemma sum_list_single_key:
  "distinct ds \<Longrightarrow> k \<in> set ds \<Longrightarrow> (\<Sum>d\<leftarrow>ds. if k = d then c else 0) = (c::int)"
  by (induction ds) (auto simp: sum_list_absent_key)

lemma sum_list_by_key:
  fixes w :: "'a \<Rightarrow> int"
  assumes "distinct ds" and "\<forall>r\<in>set rs. key r \<in> set ds"
  shows "(\<Sum>d\<leftarrow>ds. sum_list (map w (filter (\<lambda>r. key r = d) rs))) = sum_list (map w rs)"
  using assms(2)
proof (induction rs)
  case Nil
  then show ?case by simp
next
  case (Cons r rs)
  have "(\<Sum>d\<leftarrow>ds. sum_list (map w (filter (\<lambda>r. key r = d) (r # rs))))
      = (\<Sum>d\<leftarrow>ds. (if key r = d then w r else 0)
                    + sum_list (map w (filter (\<lambda>r. key r = d) rs)))"
    by (rule arg_cong [where f = sum_list]) simp
  also have "\<dots> = (\<Sum>d\<leftarrow>ds. if key r = d then w r else 0)
                  + (\<Sum>d\<leftarrow>ds. sum_list (map w (filter (\<lambda>r. key r = d) rs)))"
    by (rule sum_list_addf)
  also have "(\<Sum>d\<leftarrow>ds. if key r = d then w r else 0) = w r"
    using assms(1) Cons.prems by (simp add: sum_list_single_key)
  finally show ?case using Cons by simp
qed

lemma length_as_sum: "int (length xs) = sum_list (map (\<lambda>_. 1) xs)"
  by (induction xs) auto

lemma total_nonneg:
  "\<forall>r\<in>set rs. 0 \<le> Walks_YTD r \<Longrightarrow> 0 \<le> sum_list (map Walks_YTD rs)"
  by (induction rs) auto

lemma group_total_le:
  "\<forall>r\<in>set rs. 0 \<le> Walks_YTD r \<Longrightarrow>
     sum_list (map Walks_YTD (filter P rs)) \<le> sum_list (map Walks_YTD rs)"
  by (induction rs) auto


section \<open>Cleaning\<close>

lemma sheet_row_simps [simp]:
  "sheet_row a b c d e UNIT = a"
  "sheet_row a b c d e SECTOR = b"
  "sheet_row a b c d e DISTRICT = c"
  "sheet_row a b c d e UNIT_TYPE = d"
  "sheet_row a b c d e WALKS = e"
  by (simp_all add: sheet_row_def)

lemma starts_06_ESS_iff: "starts_06_ESS c \<longleftrightarrow> has_excluded_prefix c"
  by (cases c) (simp_all add: has_excluded_prefix_def str_startswith_prefix)

lemma notna_iff: "notna c \<longleftrightarrow> c \<noteq> Null"
  by (cases c) simp_all

lemma cells_cleaned [simp]: "cells (cleaned p r) = r"
  by (simp add: cleaned_def)

lemma with_walks_cleaned:
  "with_walks p r =
     (if to_numeric p (r WALKS) = Some Infinite then Inl ValueError else Inr (cleaned p r))"
proof (cases "fillna0 (to_numeric p (r WALKS))")
  case (Finite q)
  then have "to_numeric p (r WALKS) \<noteq> Some Infinite" by auto
  with Finite show ?thesis
    by (simp add: with_walks_def cleaned_def walks_int_def)
next
  case Infinite
  then have "to_numeric p (r WALKS) = Some Infinite"
    by (cases "to_numeric p (r WALKS)") auto
  with Infinite show ?thesis
    by (simp add: with_walks_def)
qed

lemma traverse_with_walks:
  "traverse (with_walks p) sheet =
     (if walks_finite p sheet then Inr (map (cleaned p) sheet) else Inl ValueError)"
  by (induction sheet) (auto simp: walks_finite_def with_walks_cleaned)

lemma normalize_eq:
  "normalize p df =
     (if WALKS \<notin> set (columns df) then Inl (KeyError WALKS)
      else if \<not> walks_finite p (rows df) then Inl ValueError
      else if UNIT \<notin> set (columns df) then Inl (KeyError UNIT)
      else if SECTOR \<notin> set (columns df) then Inl (KeyError SECTOR)
      else if \<not> sector_accessible df then Inl AttributeError
      else Inr \<lparr>columns = (if ''Walks_YTD'' \<in> set (columns df) then columns df
                            else columns df @ [''Walks_YTD'']),
                object_columns = removeAll ''Walks_YTD'' (object_columns df),
                rows = filter (\<lambda>r. \<not> starts_06_ESS (cells r SECTOR))
                         (filter (\<lambda>r. notna (cells r UNIT)) (map (cleaned p) (rows df)))\<rparr>)"
  by (auto simp: normalize_def add_walks_def drop_unlabelled_def drop_excluded_def
      traverse_with_walks str_accessor_def sector_accessible_def filter_map comp_def Let_def)

lemma normalize_Inr_iff:
  "normalize p df = Inr df' \<longleftrightarrow>
     WALKS \<in> set (columns df) \<and> UNIT \<in> set (columns df) \<and> SECTOR \<in> set (columns df) \<and>
     walks_finite p (rows df) \<and> sector_accessible df \<and>
     df' = \<lparr>columns = (if ''Walks_YTD'' \<in> set (columns df) then columns df
                        else columns df @ [''Walks_YTD'']),
            object_columns = removeAll ''Walks_YTD'' (object_columns df),
            rows = filter (\<lambda>r. \<not> starts_06_ESS (cells r SECTOR))
                     (filter (\<lambda>r. notna (cells r UNIT)) (map (cleaned p) (rows df)))\<rparr>"
  by (auto simp: normalize_eq)

lemma columns_normalize:
  "normalize p df = Inr df' \<Longrightarrow> c \<noteq> ''Walks_YTD'' \<Longrightarrow> c \<in> set (columns df') \<longleftrightarrow> c \<in> set (columns df)"
  by (auto simp: normalize_Inr_iff)


lemma rows_retained:
  "normalize p df = Inr df' \<Longrightarrow> rows df' = map (cleaned p) (spec_retained (rows df))"
  by (simp add: normalize_Inr_iff spec_retained_def filter_map comp_def starts_06_ESS_iff
      notna_iff conj_commute)

lemma Walks_YTD_range:
  "normalize p df = Inr df' \<Longrightarrow> r \<in> set (rows df') \<Longrightarrow>
     - (2 ^ 63) \<le> Walks_YTD r \<and> Walks_YTD r < 2 ^ 63"
proof -
  assume "normalize p df = Inr df'" and "r \<in> set (rows df')"
  then obtain r0 where r: "r = cleaned p r0"
    by (auto simp: rows_retained)
  show ?thesis
    using wrap64_range
    by (cases "fillna0 (to_numeric p (r0 WALKS))") (simp_all add: r cleaned_def walks_int_def)
qed

lemmas clean_defs =
  normalize_eq read_excel_def walks_finite_def sector_accessible_def cleaned_def walks_int_def
  all_columns_def example_parse_def wrap64_def trunc_def Let_def



lemma run_normalize_Inl: "normalize p df = Inl e \<Longrightarrow> run p sv df cp = [Error e]"
  by (simp add: run_def)


section \<open>The claims about the cleaning\<close>

subsection \<open>Coercion of the walks count\<close>




subsection \<open>The excluded sector\<close>





section \<open>The order of the districts\<close>

lemma district_key_spec: "district_key p x = Inr k \<Longrightarrow> is_sort_name p x k"
proof (cases x)
  case Null
  assume "district_key p x = Inr k"
  with Null show ?thesis by (auto simp: district_key_def is_sort_name_def)
next
  case (Num q)
  assume "district_key p x = Inr k"
  with Num show ?thesis
    by (auto simp: district_key_def is_sort_name_def split: if_splits)
next
  case (Str s)
  assume k: "district_key p x = Inr k"
  show ?thesis
  proof (cases "CHR ''-'' \<in> set s")
    case True
    with k Str have "k = str_strip (after_last_dash s)"
      by (simp add: district_key_def last_str_split_dash)
    with True Str show ?thesis
      by (simp add: is_sort_name_def is_display_name_def str_strip_trimmed)
  next
    case False
    with k Str show ?thesis
      by (simp add: district_key_def is_sort_name_def is_display_name_def)
  qed
qed

lemma district_key_total:
  "(\<exists>k. district_key p x = Inr k) \<longleftrightarrow>
     \<not> (\<exists>q. x = Num q \<and> CHR ''-'' \<in> set (number_to_text p q))"
  by (cases x) (auto simp: district_key_def)

lemma district_key_Inl: "district_key p x = Inl e \<Longrightarrow> e = AttributeError"
  by (cases x) (auto simp: district_key_def split: if_splits)

lemma districts_Inr:
  "districts p df = Inr ds \<Longrightarrow>
     DISTRICT \<in> set (columns df) \<and> ds = sort_key (the_key p) (unique (district_col df))"
proof -
  assume d: "districts p df = Inr ds"
  then have c: "DISTRICT \<in> set (columns df)"
    by (simp add: districts_def split: if_splits)
  with d have "sorted_by (district_key p) (unique (district_col df)) = Inr ds"
    by (simp add: districts_def district_col_def)
  then have "ds = sort_key (the_key p) (unique (district_col df))"
    by (rule sorted_by_Inr) (simp add: the_key_def)
  with c show ?thesis by simp
qed

lemma districts_total:
  "(\<exists>ds. districts p df = Inr ds) \<longleftrightarrow>
     DISTRICT \<in> set (columns df) \<and>
     \<not> (\<exists>q. Num q \<in> set (district_col df) \<and> CHR ''-'' \<in> set (number_to_text p q))"
proof (cases "DISTRICT \<in> set (columns df)")
  case False
  then show ?thesis by (simp add: districts_def)
next
  case True
  have "(\<forall>x\<in>set (district_col df). \<exists>k. district_key p x = Inr k)
          \<longleftrightarrow> \<not> (\<exists>q. Num q \<in> set (district_col df) \<and> CHR ''-'' \<in> set (number_to_text p q))"
    by (auto simp: district_key_total)
  with True show ?thesis
    by (simp add: districts_def sorted_by_total set_unique district_col_def)
qed

lemma districts_Inl:
  "districts p df = Inl e \<Longrightarrow> DISTRICT \<in> set (columns df) \<Longrightarrow> e = AttributeError"
  by (auto simp: districts_def sorted_by_def split: sum.splits
      dest!: traverse_Inl dest: district_key_Inl)

lemma set_districts: "districts p df = Inr ds \<Longrightarrow> set ds = set (district_col df)"
  by (auto dest!: districts_Inr simp: set_unique)

lemma districts_keys:
  "districts p df = Inr ds \<Longrightarrow> d \<in> set ds \<Longrightarrow> district_key p d = Inr (the_key p d)"
proof -
  assume ds: "districts p df = Inr ds" and d: "d \<in> set ds"
  then have "\<exists>ys. sorted_by (district_key p) (unique (district_col df)) = Inr ys"
    by (auto simp: districts_def district_col_def split: if_splits)
  then have "\<forall>x\<in>set (unique (district_col df)). \<exists>k. district_key p x = Inr k"
    by (simp add: sorted_by_total)
  moreover from ds d have "d \<in> set (unique (district_col df))"
    by (simp add: set_districts set_unique)
  ultimately show ?thesis
    by (auto simp: the_key_def)
qed

lemmas order_defs =
  districts_def unique_def sorted_by_def district_key_def str_strip_def is_space_def

section \<open>The district sections\<close>

lemma cell_eq_Str [simp]: "cell_eq c (Str d) \<longleftrightarrow> c = Str d"
  by (auto simp: cell_eq_def)

lemma group_of_Str: "group_of df (Str d) = filter (\<lambda>r. cells r DISTRICT = Str d) (rows df)"
  by (simp add: group_of_def)

lemma group_of_Null: "group_of df Null = []"
  by (simp add: group_of_def cell_eq_def)


lemma contract_stable_sort: "sort_values_contract (sort_key walks_ytd)"
  by (simp add: sort_values_contract_def)

text \<open>The units behind of a group, for every sort within the contract: the rows of the
  group below the current period, each as often as the group has it, in ascending order of
  \<^verbatim>\<open>Walks_YTD\<close>. The order of rows with equal \<^verbatim>\<open>Walks_YTD\<close> is the
  business of the library's default algorithm, which it does not promise to be stable,
  and is not settled here.\<close>

lemma behind_sorted_members:
  "sort_values_contract sv \<Longrightarrow> UNIT_TYPE \<in> set cols \<Longrightarrow>
     \<exists>b. behind sv cols grp cp = Inr b
       \<and> mset b = mset (map project (filter (\<lambda>r. Walks_YTD r < cp) grp))
       \<and> sorted (map walks_ytd b)"
  by (simp add: behind_def sort_values_contract_def)

lemma pie_nonneg:
  "0 \<le> actual \<Longrightarrow> actual < 2 ^ 63 \<Longrightarrow> 0 \<le> target \<Longrightarrow> target < 2 ^ 63 \<Longrightarrow>
     pie (chart_segments actual target) = Inr (chart_segments actual target)"
proof -
  assume a: "0 \<le> actual" "actual < 2 ^ 63" "0 \<le> target" "target < 2 ^ 63"
  then have "wrap64 (target - actual) = target - actual"
    and "wrap64 (actual - target) = actual - target"
    by (simp_all add: wrap64_id)
  with a show ?thesis
    by (auto simp: pie_def chart_segments_def Let_def)
qed

lemma pie_Inl: "pie x = Inl e \<Longrightarrow> e = ValueError"
  by (simp add: pie_def split: if_splits)

lemma expander_in_sections:
  "Expander d n t a \<in> set (district_sections sv df cp ds) \<Longrightarrow>
     Str d \<in> set ds \<and>
     n = int (length (group_of df (Str d))) \<and>
     t = n * cp \<and>
     a = sum64 (map Walks_YTD (group_of df (Str d)))"
proof (induction ds)
  case Nil
  then show ?case by simp
next
  case (Cons x ds)
  show ?case
  proof (cases x)
    case (Str s)
    with Cons show ?thesis
      by (auto simp: Let_def split: sum.splits if_splits)
  qed (use Cons in simp_all)
qed


lemma sections_prefix: "prefix (section_districts (district_sections sv df cp ds)) ds"
proof (induction ds)
  case Nil
  then show ?case by simp
next
  case (Cons x ds)
  then show ?case
    by (cases x) (simp_all add: Let_def split: sum.splits)
qed

text \<open>Totals that stay within 64 bits: no value is negative and the sum of all is below
  2^63.\<close>

lemma group_sum64:
  assumes "\<forall>r\<in>set rs. 0 \<le> Walks_YTD r" and "sum_list (map Walks_YTD rs) < 2 ^ 63"
  shows "sum64 (map Walks_YTD (filter P rs)) = sum_list (map Walks_YTD (filter P rs))"
    and "0 \<le> sum_list (map Walks_YTD (filter P rs))"
    and "sum_list (map Walks_YTD (filter P rs)) < 2 ^ 63"
proof -
  have le: "sum_list (map Walks_YTD (filter P rs)) \<le> sum_list (map Walks_YTD rs)"
    using assms(1) by (rule group_total_le)
  have "\<forall>r\<in>set (filter P rs). 0 \<le> Walks_YTD r"
    using assms(1) by simp
  then show ge: "0 \<le> sum_list (map Walks_YTD (filter P rs))"
    by (rule total_nonneg)
  from le assms(2) show lt: "sum_list (map Walks_YTD (filter P rs)) < 2 ^ 63"
    by simp
  from ge lt show "sum64 (map Walks_YTD (filter P rs)) = sum_list (map Walks_YTD (filter P rs))"
    by (simp add: sum64_def wrap64_id)
qed

lemma group_target:
  assumes "0 \<le> cp" and "int (length rs) * cp < 2 ^ 63"
  shows "0 \<le> int (length (filter P rs)) * cp \<and> int (length (filter P rs)) * cp < 2 ^ 63"
proof -
  have "int (length (filter P rs)) * cp \<le> int (length rs) * cp"
    using assms(1) by (intro mult_right_mono) simp_all
  with assms show ?thesis by simp
qed

lemma group_pie:
  assumes "0 \<le> cp" and "int (length rs) * cp < 2 ^ 63"
    and "\<forall>r\<in>set rs. 0 \<le> Walks_YTD r" and "sum_list (map Walks_YTD rs) < 2 ^ 63"
  shows "pie (chart_segments (sum64 (map Walks_YTD (filter P rs))) (int (length (filter P rs)) * cp))
       = Inr (chart_segments (sum64 (map Walks_YTD (filter P rs))) (int (length (filter P rs)) * cp))"
  using group_sum64 [OF assms(3,4), of P] group_target [OF assms(1,2), of P]
  by (simp add: pie_nonneg)

lemma group_pie_sum:
  assumes "0 \<le> cp" and "int (length rs) * cp < 2 ^ 63"
    and "\<forall>r\<in>set rs. 0 \<le> Walks_YTD r" and "sum_list (map Walks_YTD rs) < 2 ^ 63"
  shows "pie (chart_segments (sum_list (map Walks_YTD (filter P rs)))
            (int (length (filter P rs)) * cp))
       = Inr (chart_segments (sum_list (map Walks_YTD (filter P rs)))
            (int (length (filter P rs)) * cp))"
  using group_sum64 [OF assms(3,4), of P] group_target [OF assms(1,2), of P]
  by (intro pie_nonneg) simp_all

lemma overall_pie:
  assumes "0 \<le> cp" and "int (length rs) * cp < 2 ^ 63"
    and "\<forall>r\<in>set rs. 0 \<le> Walks_YTD r" and "sum_list (map Walks_YTD rs) < 2 ^ 63"
  shows "pie (chart_segments (sum64 (map Walks_YTD rs)) (int (length rs) * cp))
       = Inr (chart_segments (sum64 (map Walks_YTD rs)) (int (length rs) * cp))"
  using group_pie [OF assms, of "\<lambda>r. True"] by simp

lemma sections_complete:
  assumes "UNIT_TYPE \<in> set (columns df)" and "0 \<le> cp" and "int (length (rows df)) * cp < 2 ^ 63"
    and "\<forall>r\<in>set (rows df). 0 \<le> Walks_YTD r" and "sum_list (map Walks_YTD (rows df)) < 2 ^ 63"
  shows "\<forall>d\<in>set ds. is_text d \<Longrightarrow> section_districts (district_sections sv df cp ds) = ds"
proof (induction ds)
  case Nil
  then show ?case by simp
next
  case (Cons x ds)
  then obtain s where "x = Str s" by (cases x) auto
  with Cons assms(1) show ?case
    by (simp add: Let_def behind_def group_of_Str group_pie [OF assms(2-5)])
qed

lemma sections_all_text:
  assumes "UNIT_TYPE \<in> set (columns df)" and "0 \<le> cp" and "int (length (rows df)) * cp < 2 ^ 63"
    and "\<forall>r\<in>set (rows df). 0 \<le> Walks_YTD r" and "sum_list (map Walks_YTD (rows df)) < 2 ^ 63"
  shows "\<forall>d\<in>set ds. is_text d \<Longrightarrow>
     unit_counts (district_sections sv df cp ds) =
       map (\<lambda>d. int (length (filter (\<lambda>r. cells r DISTRICT = d) (rows df)))) ds \<and>
     actual_totals (district_sections sv df cp ds) =
       map (\<lambda>d. sum_list (map Walks_YTD (filter (\<lambda>r. cells r DISTRICT = d) (rows df)))) ds"
proof (induction ds)
  case Nil
  then show ?case by simp
next
  case (Cons x ds)
  then obtain s where "x = Str s" by (cases x) auto
  with Cons assms(1) show ?case
    by (simp add: Let_def behind_def group_of_Str group_sum64(1) [OF assms(4,5)]
        group_pie_sum [OF assms(2-5)])
qed

lemma sections_without_unit_type:
  "UNIT_TYPE \<notin> set (columns df) \<Longrightarrow> ds \<noteq> [] \<Longrightarrow>
     (\<exists>d n t a. district_sections sv df cp ds = [Expander d n t a, Error (KeyError UNIT_TYPE)])
     \<or> district_sections sv df cp ds = [Error TypeError]"
  by (cases ds; cases "hd ds") (auto simp: Let_def behind_def)

lemmas run_defs =
  run_def behind_def project_def chart_segments_def pie_def sum64_def group_of_def cell_eq_def
  Let_def


lemma rendered_sections_nonempty:
  "Expander d n t a \<in> set (run p sv df cp) \<Longrightarrow>
     1 \<le> n \<and>
     (\<exists>df'. normalize p df = Inr df' \<and> n = int (length (group_of df' (Str d))))"
proof -
  assume e: "Expander d n t a \<in> set (run p sv df cp)"
  then obtain df' ds where n: "normalize p df = Inr df'" and ds: "districts p df' = Inr ds"
    and s: "Expander d n t a \<in> set (district_sections sv df' cp ds)"
    by (auto simp: run_def Let_def split: sum.splits if_splits)
  from s have d: "Str d \<in> set ds"
    and len: "n = int (length (group_of df' (Str d)))"
    by (auto dest: expander_in_sections)
  from d ds have "Str d \<in> set (district_col df')"
    by (simp add: set_districts)
  then have "group_of df' (Str d) \<noteq> []"
    by (auto simp: district_col_def group_of_Str filter_empty_conv)
  then have "1 \<le> n"
    by (cases "group_of df' (Str d)") (simp_all add: len)
  with n len show ?thesis by blast
qed

lemma district_totals_add_up:
  assumes n: "normalize p df = Inr df'" and ne: "rows df' \<noteq> []"
    and cols: "DISTRICT \<in> set (columns df)" "UNIT_TYPE \<in> set (columns df)"
    and txt_d: "\<forall>r\<in>set (rows df'). is_text (cells r DISTRICT)"
    and pos: "0 \<le> cp" "int (length (rows df')) * cp < 2 ^ 63"
      "\<forall>r\<in>set (rows df'). 0 \<le> Walks_YTD r" "sum_list (map Walks_YTD (rows df')) < 2 ^ 63"
  shows "sum_list (unit_counts (run p sv df cp)) = int (length (rows df'))
       \<and> sum_list (actual_totals (run p sv df cp)) = sum_list (map Walks_YTD (rows df'))"
proof -
  from n cols have c': "DISTRICT \<in> set (columns df')" "UNIT_TYPE \<in> set (columns df')"
    by (simp_all add: columns_normalize)
  have "\<not> is_text (Num q)" for q
    by simp
  with txt_d have "\<not> (\<exists>q. Num q \<in> set (district_col df')
      \<and> CHR ''-'' \<in> set (number_to_text p q))"
    by (metis (no_types, lifting) district_col_def imageE list.set_map)
  with c' obtain ds where ds: "districts p df' = Inr ds"
    using districts_total [of p df'] by blast
  then have set: "set ds = set (district_col df')"
    and dist: "distinct ds"
    by (auto dest!: districts_Inr simp: set_unique distinct_unique)
  from set txt_d have all: "\<forall>d\<in>set ds. is_text d"
    by (auto simp: district_col_def)
  have key: "\<forall>r\<in>set (rows df'). cells r DISTRICT \<in> set ds"
    by (simp add: set district_col_def)
  have run: "run p sv df cp =
      OverallMetrics (int (length (rows df'))) (int (length (rows df')) * cp)
          (sum64 (map Walks_YTD (rows df'))) #
      OverallPie (chart_segments (sum64 (map Walks_YTD (rows df')))
          (int (length (rows df')) * cp)) #
      district_sections sv df' cp ds"
    using n ne ds overall_pie [OF pos]
    by (simp add: run_def Let_def)
  note sec = sections_all_text [OF c'(2) pos all, of sv]
  have "sum_list (unit_counts (run p sv df cp))
      = (\<Sum>d\<leftarrow>ds. sum_list (map (\<lambda>_. 1) (filter (\<lambda>r. cells r DISTRICT = d) (rows df'))))"
    using sec by (simp add: run length_as_sum)
  also have "\<dots> = sum_list (map (\<lambda>_. 1) (rows df'))"
    using dist key by (rule sum_list_by_key)
  finally have units: "sum_list (unit_counts (run p sv df cp)) = int (length (rows df'))"
    by (simp add: length_as_sum)
  have "sum_list (actual_totals (run p sv df cp))
      = (\<Sum>d\<leftarrow>ds. sum_list (map Walks_YTD (filter (\<lambda>r. cells r DISTRICT = d) (rows df'))))"
    using sec by (simp add: run)
  also have "\<dots> = sum_list (map Walks_YTD (rows df'))"
    using dist key by (rule sum_list_by_key)
  finally show ?thesis using units by simp
qed

subsection \<open>Rows without a unit label\<close>




subsection \<open>Nothing retained\<close>





section \<open>The claims about the report\<close>

subsection \<open>District totals and the overall totals\<close>

text \<open>
  C2. The unit counts of the district sections add up to the overall unit count, and their
  actual totals to the overall actual total. The script does not keep this on a sheet with
  a retained row whose District cell is blank. The key function of line 37 provides for a
  blank (\<^verbatim>\<open>pd.notna(x)\<close>), so the blank is one of the districts; but line 73
  finds no row equal to it, and line 74 raises \<^verbatim>\<open>TypeError\<close> on it. The overall
  summary counts 2 units and 3 walks; the district sections rendered before the error count
  1 unit and 2 walks. (The lemma \<open>district_totals_add_up\<close> above has the sums agree when
  every retained row has a text for a district, the Unit Type column is there, no walks
  count is negative and the totals stay within 64 bits.)
\<close>

theorem blank_district_totals:
  "run example_parse (sort_key walks_ytd) blank_district_example 3 =
     [OverallMetrics 2 6 3, OverallPie [(''Completed'', 3), (''Remaining'', 3)],
      Expander ''D1-Smith'' 1 3 2,
      BehindTable [\<lparr>unit_name = Str ''U1'', unit_type = Str ''Retail'', walks_ytd = 2\<rparr>],
      DistrictPie ''Smith'' [(''Completed'', 2), (''Remaining'', 1)],
      Error TypeError]
   \<and> sum_list (unit_counts (run example_parse (sort_key walks_ytd) blank_district_example 3)) = 1
   \<and> sum_list (actual_totals (run example_parse (sort_key walks_ytd) blank_district_example 3)) = 2"
  by (simp add: clean_defs order_defs run_defs blank_district_example_def)

subsection \<open>No empty district group\<close>

text \<open>
  C10. Every district aggregate that is produced has a unit count of at least 1: a group
  without members cannot occur, because groups are built only from the members present.
  The sections that are rendered do have at least one unit (the lemma
  \<open>rendered_sections_nonempty\<close> above). But a group without members does occur: on a
  sheet with a retained row whose District cell is blank, the blank is one of the districts
  of line 35, and line 73 builds its group, which has no member, since no cell equals NaN.
  Only the \<^verbatim>\<open>TypeError\<close> of line 74 keeps its unit count, 0, from being computed
  and rendered.
\<close>

theorem blank_district_group_empty:
  "\<exists>df. normalize example_parse blank_district_example = Inr df
      \<and> districts example_parse df = Inr [Str ''D1-Smith'', Null]
      \<and> length (rows df) = 2
      \<and> group_of df Null = []
      \<and> int (length (group_of df Null)) = 0
      \<and> section_districts (run example_parse (sort_key walks_ytd) blank_district_example 3)
          = [Str ''D1-Smith'']"
  by (simp add: clean_defs order_defs run_defs blank_district_example_def)

subsection \<open>Chart segments\<close>

text \<open>
  C4. For every aggregate the builder computes completed = min(actual, target),
  excess = max(actual - target, 0) and remaining = max(target - actual, 0); it emits the
  pair On Target, Excess exactly when excess > 0 and the pair Completed, Remaining
  otherwise; in the first case completed + excess = actual, in the second
  completed + remaining = target and completed = actual. The actual total is a 64-bit
  integer, and the two differences are computed in 64 bits. What holds: all of the above,
  for every aggregate whose actual and target totals differ by less than 2^63.
\<close>

theorem chart_segments_correct:
  "- (2 ^ 63) < actual - target \<and> actual - target < 2 ^ 63 \<longrightarrow>
     chart_segments actual target =
       (if 0 < max (actual - target) 0
        then [(''On Target'', min actual target), (''Excess'', max (actual - target) 0)]
        else [(''Completed'', min actual target), (''Remaining'', max (target - actual) 0)])
     \<and> (if 0 < max (actual - target) 0
        then min actual target + max (actual - target) 0 = actual
        else min actual target + max (target - actual) 0 = target \<and> min actual target = actual)"
proof
  assume a: "- (2 ^ 63) < actual - target \<and> actual - target < 2 ^ 63"
  then have "wrap64 (actual - target) = actual - target"
    and "wrap64 (target - actual) = target - actual"
    by (simp_all add: wrap64_id)
  then show "chart_segments actual target =
       (if 0 < max (actual - target) 0
        then [(''On Target'', min actual target), (''Excess'', max (actual - target) 0)]
        else [(''Completed'', min actual target), (''Remaining'', max (target - actual) 0)])
     \<and> (if 0 < max (actual - target) 0
        then min actual target + max (actual - target) 0 = actual
        else min actual target + max (target - actual) 0 = target \<and> min actual target = actual)"
    by (simp add: chart_segments_def Let_def)
qed

theorem chart_segments_correct_witness:
  "chart_segments 7 3 = [(''On Target'', 3), (''Excess'', 4)]
   \<and> chart_segments 2 3 = [(''Completed'', 2), (''Remaining'', 1)]"
proof -
  have "chart_segments 7 3 = [(''On Target'', 3), (''Excess'', 4)]
   \<and> chart_segments 2 3 = [(''Completed'', 2), (''Remaining'', 1)]"
    by (simp add: chart_segments_def wrap64_def Let_def)
  then show ?thesis
    by (rule conjunct2 [OF conjI [OF chart_segments_correct [of 7 3]]])
qed

text \<open>A sheet of two units with -2^62 walks each has the aggregate -2^63 against the
  target 6, both within 64 bits. The excess of that aggregate is max(-2^63 - 6, 0) = 0,
  yet the difference wraps to 2^63 - 6 and the builder emits the pair On Target, Excess,
  whose sum is not the actual total; the chart then refuses the negative segment.\<close>

theorem chart_segments_overflow_counterexample:
  "run example_parse (sort_key walks_ytd) overflow_example 3 =
     [OverallMetrics 2 6 (- 9223372036854775808), Error ValueError]
   \<and> chart_segments (- 9223372036854775808) 6 =
       [(''On Target'', - 9223372036854775808), (''Excess'', 9223372036854775802)]
   \<and> max ((- 9223372036854775808) - 6) (0::int) = 0
   \<and> (- 9223372036854775808) + 9223372036854775802 \<noteq> (- 9223372036854775808 :: int)"
  by (simp add: clean_defs order_defs run_defs overflow_example_def)

subsection \<open>Presentation order of the districts\<close>

text \<open>
  C5. Districts are presented sorted by their display name (the text after the last
  \<^verbatim>\<open>-\<close>, trimmed) in lexicographic order; a key without \<^verbatim>\<open>-\<close> sorts by its
  full value; the order is deterministic and, for equal display names, is the original
  order of the keys. The list of line 35 exists whenever the District column does and no
  number in it prints with a minus sign. It has every district value of the retained rows
  once. Each district has a name to sort by: for a text, its display name, which is the
  text itself when it has no \<^verbatim>\<open>-\<close>, and otherwise what remains of the text after
  the last \<^verbatim>\<open>-\<close> when the white space at both ends is removed; for a blank,
  \<^verbatim>\<open>nan\<close>; for a number, its printed form. Of two districts in the list, the first
  has the smaller name, or the same name and its first occurrence in the column comes
  first. The sections are rendered in the order of that list: their districts are a prefix
  of it, and all of it when every district is a text, the Unit Type column is there, no
  walks count is negative and the totals stay within 64 bits (no exception ends the loop
  early).
\<close>

theorem districts_sorted_by_display_name:
  "(DISTRICT \<in> set (columns df) \<and>
    \<not> (\<exists>q. Num q \<in> set (district_col df) \<and> CHR ''-'' \<in> set (number_to_text p q))
      \<longrightarrow> (\<exists>ds. districts p df = Inr ds))
   \<and> (\<forall>ds. districts p df = Inr ds \<longrightarrow>
         set ds = set (district_col df) \<and> distinct ds
       \<and> (\<exists>name. (\<forall>d\<in>set ds. is_sort_name p d (name d)) \<and>
             sorted_wrt (\<lambda>a b. name a < name b \<or>
                 (name a = name b \<and> before (district_col df) a b)) ds))
   \<and> (\<forall>df' ds. normalize p df0 = Inr df' \<and> districts p df' = Inr ds \<longrightarrow>
         prefix (section_districts (run p sv df0 cp)) ds
       \<and> (UNIT_TYPE \<in> set (columns df0) \<and> (\<forall>d\<in>set ds. is_text d) \<and>
          0 \<le> cp \<and> int (length (rows df')) * cp < 2 ^ 63 \<and>
          (\<forall>r\<in>set (rows df'). 0 \<le> Walks_YTD r) \<and> sum_list (map Walks_YTD (rows df')) < 2 ^ 63
            \<longrightarrow> section_districts (run p sv df0 cp) = ds))"
proof (intro conjI allI impI)
  assume "DISTRICT \<in> set (columns df) \<and>
    \<not> (\<exists>q. Num q \<in> set (district_col df) \<and> CHR ''-'' \<in> set (number_to_text p q))"
  then show "\<exists>ds. districts p df = Inr ds"
    by (simp add: districts_total)
next
  fix ds
  assume d: "districts p df = Inr ds"
  then have ds: "ds = sort_key (the_key p) (unique (district_col df))"
    by (simp add: districts_Inr)
  show "set ds = set (district_col df)" by (simp add: ds set_unique)
  show "distinct ds" by (simp add: ds distinct_unique)
  have "\<forall>d\<in>set ds. is_sort_name p d (the_key p d)"
    using d by (auto dest: districts_keys district_key_spec)
  moreover have "sorted_wrt (\<lambda>a b. the_key p a < the_key p b \<or>
      (the_key p a = the_key p b \<and> before (district_col df) a b)) ds"
    unfolding ds by (rule sort_key_lex) (rule unique_before)
  ultimately show "\<exists>name. (\<forall>d\<in>set ds. is_sort_name p d (name d)) \<and>
             sorted_wrt (\<lambda>a b. name a < name b \<or>
                 (name a = name b \<and> before (district_col df) a b)) ds"
    by blast
next
  fix df' ds
  assume a: "normalize p df0 = Inr df' \<and> districts p df' = Inr ds"
  show "prefix (section_districts (run p sv df0 cp)) ds"
    using a by (simp add: run_def Let_def sections_prefix split: sum.splits)
  assume b: "UNIT_TYPE \<in> set (columns df0) \<and> (\<forall>d\<in>set ds. is_text d) \<and>
          0 \<le> cp \<and> int (length (rows df')) * cp < 2 ^ 63 \<and>
          (\<forall>r\<in>set (rows df'). 0 \<le> Walks_YTD r) \<and> sum_list (map Walks_YTD (rows df')) < 2 ^ 63"
  from a have n: "normalize p df0 = Inr df'"
    by simp
  from b have ut: "UNIT_TYPE \<in> set (columns df')"
    by (simp add: columns_normalize [OF n])
  show "section_districts (run p sv df0 cp) = ds"
  proof (cases "rows df' = []")
    case True
    then have "district_col df' = []"
      by (simp add: district_col_def)
    then have "set ds = {}"
      using a set_districts [of p df' ds] by simp
    with True a show ?thesis by (simp add: run_def)
  next
    case False
    from b have "pie (chart_segments (sum64 (map Walks_YTD (rows df')))
          (int (length (rows df')) * cp))
        = Inr (chart_segments (sum64 (map Walks_YTD (rows df'))) (int (length (rows df')) * cp))"
      by (intro overall_pie) simp_all
    moreover from b ut have "section_districts (district_sections sv df' cp ds) = ds"
      by (intro sections_complete) simp_all
    ultimately show ?thesis
      using False a by (simp add: run_def Let_def)
  qed
qed

theorem districts_sorted_by_display_name_witness:
  "\<exists>df. normalize example_parse ordering_example = Inr df
      \<and> districts example_parse df =
          Inr [Str ''Adams'', Str ''D2-Jones'', Str ''D3- Smith'', Str ''D1-Smith'']"
proof -
  have "\<exists>df. normalize example_parse ordering_example = Inr df
      \<and> districts example_parse df =
          Inr [Str ''Adams'', Str ''D2-Jones'', Str ''D3- Smith'', Str ''D1-Smith'']"
    by (simp add: clean_defs order_defs ordering_example_def)
  then show ?thesis
    by (rule conjunct2 [OF conjI [OF districts_sorted_by_display_name
      [where df = "projr (normalize example_parse ordering_example)"
        and p = example_parse and ?df0.0 = ordering_example]]])
qed

subsection \<open>Missing columns\<close>

text \<open>
  C6. On a dataset that lacks a required column the script reports an error before any row
  is processed, and renders no partial report. The script reads each column where it first
  needs it. What holds: without the walks, the unit label or the sector column an error
  message is all that is rendered, and it names the first of them that is missing unless
  an infinite walks value has made line 26 raise before. Without the District column, when
  the cleaning raises nothing, the missing-column message is all that is rendered if a row
  is retained, and the empty-result warning if none is; in every case one message or the
  warning is all there is. Without the Unit Type column, when the cleaning raises nothing
  and a row is retained, the report ends in an error message that comes after the overall
  metrics, unless ordering the districts has failed before.
\<close>

theorem missing_column_error:
  "(WALKS \<notin> set (columns df) \<longrightarrow> run p sv df cp = [Error (KeyError WALKS)])
   \<and> (WALKS \<in> set (columns df) \<and> walks_finite p (rows df) \<and> UNIT \<notin> set (columns df)
        \<longrightarrow> run p sv df cp = [Error (KeyError UNIT)])
   \<and> (WALKS \<in> set (columns df) \<and> walks_finite p (rows df) \<and> UNIT \<in> set (columns df) \<and>
       SECTOR \<notin> set (columns df)
        \<longrightarrow> run p sv df cp = [Error (KeyError SECTOR)])
   \<and> (WALKS \<notin> set (columns df) \<or> UNIT \<notin> set (columns df) \<or> SECTOR \<notin> set (columns df)
        \<longrightarrow> (\<exists>e. run p sv df cp = [Error e]))
   \<and> (DISTRICT \<notin> set (columns df)
        \<longrightarrow> (\<exists>e. run p sv df cp = [Error e]) \<or> run p sv df cp = [Warning])
   \<and> (WALKS \<in> set (columns df) \<and> UNIT \<in> set (columns df) \<and> SECTOR \<in> set (columns df) \<and>
       walks_finite p (rows df) \<and> sector_accessible df \<and> DISTRICT \<notin> set (columns df)
        \<longrightarrow> run p sv df cp =
              (if spec_retained (rows df) \<noteq> [] then [Error (KeyError DISTRICT)] else [Warning]))
   \<and> (WALKS \<in> set (columns df) \<and> UNIT \<in> set (columns df) \<and> SECTOR \<in> set (columns df) \<and>
       walks_finite p (rows df) \<and> sector_accessible df \<and> DISTRICT \<in> set (columns df) \<and>
       UNIT_TYPE \<notin> set (columns df) \<and> spec_retained (rows df) \<noteq> []
        \<longrightarrow> run p sv df cp = [Error AttributeError]
            \<or> (\<exists>n t a. run p sv df cp = [OverallMetrics n t a, Error ValueError])
            \<or> (\<exists>n t a segs. run p sv df cp =
                  [OverallMetrics n t a, OverallPie segs, Error TypeError])
            \<or> (\<exists>n t a segs d n' t' a'. run p sv df cp =
                  [OverallMetrics n t a, OverallPie segs, Expander d n' t' a',
                   Error (KeyError UNIT_TYPE)]))"
proof (intro conjI impI)
  assume "WALKS \<notin> set (columns df)"
  then show "run p sv df cp = [Error (KeyError WALKS)]"
    by (simp add: run_def normalize_eq)
next
  assume "WALKS \<in> set (columns df) \<and> walks_finite p (rows df) \<and> UNIT \<notin> set (columns df)"
  then show "run p sv df cp = [Error (KeyError UNIT)]"
    by (simp add: run_def normalize_eq)
next
  assume "WALKS \<in> set (columns df) \<and> walks_finite p (rows df) \<and> UNIT \<in> set (columns df) \<and>
       SECTOR \<notin> set (columns df)"
  then show "run p sv df cp = [Error (KeyError SECTOR)]"
    by (simp add: run_def normalize_eq)
next
  assume "WALKS \<notin> set (columns df) \<or> UNIT \<notin> set (columns df) \<or> SECTOR \<notin> set (columns df)"
  then show "\<exists>e. run p sv df cp = [Error e]"
    by (auto simp: run_def normalize_eq)
next
  assume d: "DISTRICT \<notin> set (columns df)"
  show "(\<exists>e. run p sv df cp = [Error e]) \<or> run p sv df cp = [Warning]"
  proof (cases "normalize p df")
    case (Inl e)
    then show ?thesis by (simp add: run_def)
  next
    case (Inr df')
    with d have "DISTRICT \<notin> set (columns df')"
      by (simp add: columns_normalize)
    then have "districts p df' = Inl (KeyError DISTRICT)"
      by (simp add: districts_def)
    with Inr show ?thesis by (simp add: run_def)
  qed
next
  assume a: "WALKS \<in> set (columns df) \<and> UNIT \<in> set (columns df) \<and> SECTOR \<in> set (columns df) \<and>
       walks_finite p (rows df) \<and> sector_accessible df \<and> DISTRICT \<notin> set (columns df)"
  then obtain df' where n: "normalize p df = Inr df'"
    by (auto simp: normalize_Inr_iff)
  from n a have "DISTRICT \<notin> set (columns df')"
    by (simp add: columns_normalize)
  then have "districts p df' = Inl (KeyError DISTRICT)"
    by (simp add: districts_def)
  with n have "run p sv df cp = (if rows df' \<noteq> [] then [Error (KeyError DISTRICT)] else [Warning])"
    by (simp add: run_def)
  then show "run p sv df cp =
              (if spec_retained (rows df) \<noteq> [] then [Error (KeyError DISTRICT)] else [Warning])"
    by (simp add: rows_retained [OF n])
next
  assume a: "WALKS \<in> set (columns df) \<and> UNIT \<in> set (columns df) \<and> SECTOR \<in> set (columns df) \<and>
       walks_finite p (rows df) \<and> sector_accessible df \<and> DISTRICT \<in> set (columns df) \<and>
       UNIT_TYPE \<notin> set (columns df) \<and> spec_retained (rows df) \<noteq> []"
  then obtain df' where n: "normalize p df = Inr df'"
    by (auto simp: normalize_Inr_iff)
  from n a have ne: "rows df' \<noteq> []"
    by (simp add: rows_retained)
  from n a have ut: "UNIT_TYPE \<notin> set (columns df')"
    by (simp add: columns_normalize)
  show "run p sv df cp = [Error AttributeError]
            \<or> (\<exists>n t a. run p sv df cp = [OverallMetrics n t a, Error ValueError])
            \<or> (\<exists>n t a segs. run p sv df cp =
                  [OverallMetrics n t a, OverallPie segs, Error TypeError])
            \<or> (\<exists>n t a segs d n' t' a'. run p sv df cp =
                  [OverallMetrics n t a, OverallPie segs, Expander d n' t' a',
                   Error (KeyError UNIT_TYPE)])"
  proof (cases "districts p df'")
    case (Inl e)
    from n a have "DISTRICT \<in> set (columns df')"
      by (simp add: columns_normalize)
    with Inl have "e = AttributeError"
      by (rule districts_Inl)
    with n ne Inl show ?thesis by (simp add: run_def)
  next
    case (Inr ds)
    from ne have "district_col df' \<noteq> []"
      by (simp add: district_col_def)
    then have "set ds \<noteq> {}"
      using set_districts [OF Inr] by simp
    then have "ds \<noteq> []" by auto
    with ut sections_without_unit_type [of df' ds sv cp] n ne Inr
    show ?thesis by (auto simp: run_def Let_def split: sum.splits dest: pie_Inl)
  qed
qed

theorem missing_column_error_witness:
  "run example_parse (sort_key walks_ytd) no_sector_example 3 = [Error (KeyError SECTOR)]
   \<and> run example_parse (sort_key walks_ytd) no_district_example 3 = [Warning]"
proof -
  have "run example_parse (sort_key walks_ytd) no_sector_example 3 = [Error (KeyError SECTOR)]
   \<and> run example_parse (sort_key walks_ytd) no_district_example 3 = [Warning]"
    by (simp add: run_def clean_defs no_sector_example_def no_district_example_def)
  then show ?thesis
    by (rule conjunct2 [OF conjI [OF missing_column_error
      [where df = no_sector_example and p = example_parse and sv = "sort_key walks_ytd"
        and cp = 3]]])
qed

text \<open>A sheet without the District column whose only row is excluded gives the warning and
  no error; a sheet without the Unit Type column gives the overall summary and the head of
  the first district section before the error.\<close>

theorem missing_column_counterexample:
  "DISTRICT \<notin> set (columns no_district_example)
   \<and> run example_parse (sort_key walks_ytd) no_district_example 3 = [Warning]
   \<and> UNIT_TYPE \<notin> set (columns no_unit_type_example)
   \<and> run example_parse (sort_key walks_ytd) no_unit_type_example 3 =
       [OverallMetrics 2 6 6, OverallPie [(''Completed'', 6), (''Remaining'', 0)],
        Expander ''D2-Jones'' 1 3 4, Error (KeyError UNIT_TYPE)]"
  by (simp add: clean_defs order_defs run_defs no_district_example_def no_unit_type_example_def)

end
